theory Spec2Isabelle
  imports Main
begin

section \<open>Fingerprint tables of \<^verbatim>\<open>Ensemble/fingerprints.py\<close>\<close>

text \<open>
  The module offers four encoders, \<^verbatim>\<open>get_ecfp\<close>, \<^verbatim>\<open>get_ecfc\<close>, \<^verbatim>\<open>get_maccs\<close> and
  \<^verbatim>\<open>get_secfp\<close>. Each one walks a list of SMILES strings, appends one row per string
  to a list (a row of \<^verbatim>\<open>None\<close> for a string that does not parse), builds a pandas
  \<^verbatim>\<open>DataFrame\<close> indexed by the input strings and, when some string failed, prints a
  report and calls \<^verbatim>\<open>dropna(how='any')\<close>.

  The chemistry (RDKit, mhfp) is outside the module: it is a parameter of the model, a
  record of functions. What the module does with the results (Python list building,
  the data frame, the report) is modelled here.
\<close>

subsection \<open>Cells, tables, errors\<close>

text \<open>
  A cell of a row is Python's \<^verbatim>\<open>None\<close>, a number, or a string. A number is modelled
  by its value: pandas stores a column of integers as int64, and as float64 once the
  column has held a null, and the model does not tell the two apart. \<open>PyNone\<close> stands
  for every null of pandas (\<^verbatim>\<open>None\<close>, \<^verbatim>\<open>NaN\<close>).
\<close>

datatype cell = PyNone | Num int | Str string

text \<open>A data frame: its rows in order, each with its index label (labels may repeat).\<close>

type_synonym frame = "(string \<times> cell list) list"

text \<open>The exceptions: the module raises none itself and catches none, so an exception
  of a library call or of \<^verbatim>\<open>pd.DataFrame\<close> ends the encoder.\<close>

datatype error = ValueError | OverflowError | ArgumentError

text \<open>What a call gives back: an exception, or the returned table and the printed texts
  (one entry per call of \<^verbatim>\<open>print\<close>). Nothing is printed before the last point where an
  exception can arise.\<close>

type_synonym outcome = "error + (frame \<times> string list)"

definition returned :: "error + 'a \<Rightarrow> bool" where
  "returned r = (case r of Inl e \<Rightarrow> False | Inr v \<Rightarrow> True)"

subsection \<open>The external chemistry libraries\<close>

text \<open>
  The functions of RDKit and mhfp that the module calls, with the arguments the module
  passes. \<open>MolFromSmiles\<close> gives \<open>None\<close> for a string that does not parse.
  \<open>GetHashedMorganFingerprint mol radius nBits\<close> is a vector of unsigned counts,
  \<open>GetMorganFingerprintAsBitVect mol radius nBits\<close> and \<open>GetMACCSKeysFingerprint mol\<close>
  are bit vectors, \<open>MHFPEncoder n_permutations\<close> builds an encoder object and
  \<open>secfp_from_mol encoder in_mol length radius\<close> is an array of unsigned bytes.

  The calls that take \<open>radius\<close>, \<open>nBits\<close> or a length can raise: RDKit converts
  \<open>radius\<close> and \<open>nBits\<close> to unsigned integers and refuses what does not fit, and numpy
  refuses a negative number of permutations. The calls that take a string or a
  molecule only do not raise; faults such as running out of memory are outside the
  model.
\<close>

record ('mol, 'enc) engine =
  MolFromSmiles :: "string \<Rightarrow> 'mol option"
  AddHs :: "'mol \<Rightarrow> 'mol"
  GetHashedMorganFingerprint :: "'mol \<Rightarrow> int \<Rightarrow> int \<Rightarrow> error + nat list"
  GetMorganFingerprintAsBitVect :: "'mol \<Rightarrow> int \<Rightarrow> int \<Rightarrow> error + bool list"
  GetMACCSKeysFingerprint :: "'mol \<Rightarrow> bool list"
  MHFPEncoder :: "int \<Rightarrow> error + 'enc"
  secfp_from_mol :: "'enc \<Rightarrow> 'mol \<Rightarrow> int \<Rightarrow> int \<Rightarrow> error + nat list"

text \<open>
  The lengths the libraries document, for the calls that return. A Morgan fingerprint
  hashed to \<open>nBits\<close> has \<open>nBits\<close> entries; the MACCS keys are 167 bits;
  \<^verbatim>\<open>secfp_from_mol\<close> folds the hashed shingling into \<open>length\<close> entries (it is a static
  method of the encoder class: the permutation count of the encoder object plays no
  part in it).
\<close>

definition morgan_widths :: "('mol, 'enc) engine \<Rightarrow> bool" where
  "morgan_widths eng \<longleftrightarrow>
     (\<forall>mol radius nBits fp.
        GetHashedMorganFingerprint eng mol radius nBits = Inr fp \<longrightarrow> length fp = nat nBits) \<and>
     (\<forall>mol radius nBits fp.
        GetMorganFingerprintAsBitVect eng mol radius nBits = Inr fp \<longrightarrow> length fp = nat nBits)"

definition maccs_width :: "('mol, 'enc) engine \<Rightarrow> bool" where
  "maccs_width eng \<longleftrightarrow> (\<forall>mol. length (GetMACCSKeysFingerprint eng mol) = 167)"

definition secfp_width :: "('mol, 'enc) engine \<Rightarrow> bool" where
  "secfp_width eng \<longleftrightarrow>
     (\<forall>enc mol len radius fp.
        secfp_from_mol eng enc mol len radius = Inr fp \<longrightarrow> length fp = nat len)"

text \<open>
  The libraries accept the parameters of a call: the Morgan functions return for this
  \<open>radius\<close> and \<open>nBits\<close>, whatever the molecule; \<^verbatim>\<open>secfp_from_mol\<close> returns for this
  \<open>radius\<close> and the length 2048 the module passes; the encoder can be built with
  \<open>nBits\<close> permutations.
\<close>

definition morgan_accepts :: "('mol, 'enc) engine \<Rightarrow> int \<Rightarrow> int \<Rightarrow> bool" where
  "morgan_accepts eng radius nBits \<longleftrightarrow>
     (\<forall>mol. returned (GetHashedMorganFingerprint eng mol radius nBits)) \<and>
     (\<forall>mol. returned (GetMorganFingerprintAsBitVect eng mol radius nBits))"

definition secfp_accepts :: "('mol, 'enc) engine \<Rightarrow> int \<Rightarrow> bool" where
  "secfp_accepts eng radius \<longleftrightarrow> (\<forall>enc mol. returned (secfp_from_mol eng enc mol 2048 radius))"

definition mhfp_accepts :: "('mol, 'enc) engine \<Rightarrow> int \<Rightarrow> int \<Rightarrow> bool" where
  "mhfp_accepts eng radius nBits \<longleftrightarrow>
     returned (MHFPEncoder eng nBits) \<and> secfp_accepts eng radius"

subsection \<open>Python and pandas operations the module uses\<close>

text \<open>\<^verbatim>\<open>ExplicitBitVect.ToBitString()\<close>: one character \<^verbatim>\<open>'0'\<close> or \<^verbatim>\<open>'1'\<close> per bit.\<close>

definition ToBitString :: "bool list \<Rightarrow> string" where
  "ToBitString bits = map (\<lambda>b. if b then CHR ''1'' else CHR ''0'') bits"

text \<open>\<^verbatim>\<open>list(s)\<close> of a string: its characters, each a string of length one.\<close>

definition list_of_str :: "string \<Rightarrow> cell list" where
  "list_of_str s = map (\<lambda>c. Str [c]) s"

text \<open>\<^verbatim>\<open>list(v)\<close> of a bit vector: the integers 0 and 1.\<close>

definition list_of_bitvect :: "bool list \<Rightarrow> cell list" where
  "list_of_bitvect bits = map (\<lambda>b. Num (if b then 1 else 0)) bits"

text \<open>\<^verbatim>\<open>list(v)\<close> of a vector of unsigned integers.\<close>

definition list_of_uints :: "nat list \<Rightarrow> cell list" where
  "list_of_uints v = map (\<lambda>n. Num (int n)) v"

text \<open>\<^verbatim>\<open>[None]*n\<close>: empty when \<open>n\<close> is zero or negative.\<close>

definition none_row :: "int \<Rightarrow> cell list" where
  "none_row n = replicate (nat n) PyNone"

text \<open>
  \<^verbatim>\<open>pd.DataFrame(data=rows, index=labels)\<close> for a list of lists: the frame has as many
  columns as the longest row, and a shorter row is filled up with nulls. With no rows
  at all the frame has the labels and no column; a single row is repeated for every
  label; otherwise a number of rows other than the number of labels raises
  \<^verbatim>\<open>ValueError\<close> (taken to hold also for one row and no label). The encoders always
  pass one row per label.
\<close>

definition width :: "cell list list \<Rightarrow> nat" where
  "width data = foldr (\<lambda>row w. max (length row) w) data 0"

definition pad :: "nat \<Rightarrow> cell list \<Rightarrow> cell list" where
  "pad w row = row @ replicate (w - length row) PyNone"

definition DataFrame :: "cell list list \<Rightarrow> string list \<Rightarrow> error + frame" where
  "DataFrame data index =
     (case data of
        [] \<Rightarrow> Inr (map (\<lambda>label. (label, [])) index)
      | [row] \<Rightarrow>
          if index = [] then Inl ValueError else Inr (map (\<lambda>label. (label, row)) index)
      | _ \<Rightarrow>
          if length data \<noteq> length index then Inl ValueError
          else Inr (zip index (map (pad (width data)) data)))"

text \<open>\<^verbatim>\<open>df.dropna(how='any')\<close>: the rows that hold no null, in order.\<close>

definition dropna :: "frame \<Rightarrow> frame" where
  "dropna df = filter (\<lambda>(label, row). PyNone \<notin> set row) df"

text \<open>\<^verbatim>\<open>sep.join(xs)\<close>.\<close>

fun join :: "string \<Rightarrow> string list \<Rightarrow> string" where
  "join sep [] = []"
| "join sep [x] = x"
| "join sep (x # y # ys) = x @ sep @ join sep (y # ys)"

text \<open>The text every encoder prints, \<^verbatim>\<open>"...:\n{}.\n...".format('\n'.join(map(str, erroneous_smiles)))\<close>.\<close>

definition erroneous_report :: "string list \<Rightarrow> string" where
  "erroneous_report erroneous_smiles =
     ''The following erroneous SMILES have been found in the data:'' @ [CHR 0x0A] @
     join [CHR 0x0A] erroneous_smiles @ ''.'' @ [CHR 0x0A] @
     ''The erroneous SMILES will be removed from the data.''"

subsection \<open>\<^verbatim>\<open>get_ecfp\<close>\<close>

text \<open>The \<^verbatim>\<open>for\<close> loop, with the two lists it appends to. An exception of a library
  call leaves the loop.\<close>

fun ecfp_loop ::
  "('mol, 'enc) engine \<Rightarrow> int \<Rightarrow> int \<Rightarrow> bool \<Rightarrow> string list \<Rightarrow>
   cell list list \<Rightarrow> string list \<Rightarrow> error + (cell list list \<times> string list)" where
  "ecfp_loop eng radius nBits useCounts [] ecfp_fingerprints erroneous_smiles =
     Inr (ecfp_fingerprints, erroneous_smiles)"
| "ecfp_loop eng radius nBits useCounts (smiles # rest) ecfp_fingerprints erroneous_smiles =
     (case MolFromSmiles eng smiles of
        None \<Rightarrow>
          ecfp_loop eng radius nBits useCounts rest
            (ecfp_fingerprints @ [none_row nBits]) (erroneous_smiles @ [smiles])
      | Some mol0 \<Rightarrow>
          (let mol = AddHs eng mol0 in
           if useCounts then
             (case GetHashedMorganFingerprint eng mol radius nBits of
                Inl e \<Rightarrow> Inl e
              | Inr fp \<Rightarrow>
                  ecfp_loop eng radius nBits useCounts rest
                    (ecfp_fingerprints @ [list_of_uints fp]) erroneous_smiles)
           else
             (case GetMorganFingerprintAsBitVect eng mol radius nBits of
                Inl e \<Rightarrow> Inl e
              | Inr fp \<Rightarrow>
                  ecfp_loop eng radius nBits useCounts rest
                    (ecfp_fingerprints @ [list_of_str (ToBitString fp)]) erroneous_smiles)))"

definition get_ecfp ::
  "('mol, 'enc) engine \<Rightarrow> string list \<Rightarrow> int \<Rightarrow> int \<Rightarrow> bool \<Rightarrow> outcome" where
  "get_ecfp eng smiles_list radius nBits useCounts =
     (case ecfp_loop eng radius nBits useCounts smiles_list [] [] of
        Inl e \<Rightarrow> Inl e
      | Inr (ecfp_fingerprints, erroneous_smiles) \<Rightarrow>
          (case DataFrame ecfp_fingerprints smiles_list of
             Inl e \<Rightarrow> Inl e
           | Inr df_ecfp_fingerprints \<Rightarrow>
               if length erroneous_smiles > 0 then
                 Inr (dropna df_ecfp_fingerprints, [erroneous_report erroneous_smiles])
               else Inr (df_ecfp_fingerprints, [])))"

text \<open>A call with the defaults of the signature, \<^verbatim>\<open>radius=2, nBits=2048, useCounts=False\<close>:
  \<open>None\<close> is an argument left out.\<close>

definition get_ecfp_call ::
  "('mol, 'enc) engine \<Rightarrow> string list \<Rightarrow> int option \<Rightarrow> int option \<Rightarrow> bool option \<Rightarrow> outcome" where
  "get_ecfp_call eng smiles_list radius nBits useCounts =
     get_ecfp eng smiles_list
       (case radius of None \<Rightarrow> 2 | Some r \<Rightarrow> r)
       (case nBits of None \<Rightarrow> 2048 | Some n \<Rightarrow> n)
       (case useCounts of None \<Rightarrow> False | Some u \<Rightarrow> u)"

subsection \<open>\<^verbatim>\<open>get_ecfc\<close>\<close>

fun ecfc_loop ::
  "('mol, 'enc) engine \<Rightarrow> int \<Rightarrow> int \<Rightarrow> bool \<Rightarrow> string list \<Rightarrow>
   cell list list \<Rightarrow> string list \<Rightarrow> error + (cell list list \<times> string list)" where
  "ecfc_loop eng radius nBits useCounts [] ecfp_fingerprints erroneous_smiles =
     Inr (ecfp_fingerprints, erroneous_smiles)"
| "ecfc_loop eng radius nBits useCounts (smiles # rest) ecfp_fingerprints erroneous_smiles =
     (case MolFromSmiles eng smiles of
        None \<Rightarrow>
          ecfc_loop eng radius nBits useCounts rest
            (ecfp_fingerprints @ [none_row nBits]) (erroneous_smiles @ [smiles])
      | Some mol0 \<Rightarrow>
          (let mol = AddHs eng mol0 in
           if useCounts then
             (case GetHashedMorganFingerprint eng mol radius nBits of
                Inl e \<Rightarrow> Inl e
              | Inr fp \<Rightarrow>
                  ecfc_loop eng radius nBits useCounts rest
                    (ecfp_fingerprints @ [list_of_uints fp]) erroneous_smiles)
           else
             (case GetMorganFingerprintAsBitVect eng mol radius nBits of
                Inl e \<Rightarrow> Inl e
              | Inr fp \<Rightarrow>
                  ecfc_loop eng radius nBits useCounts rest
                    (ecfp_fingerprints @ [list_of_str (ToBitString fp)]) erroneous_smiles)))"

definition get_ecfc ::
  "('mol, 'enc) engine \<Rightarrow> string list \<Rightarrow> int \<Rightarrow> int \<Rightarrow> bool \<Rightarrow> outcome" where
  "get_ecfc eng smiles_list radius nBits useCounts =
     (case ecfc_loop eng radius nBits useCounts smiles_list [] [] of
        Inl e \<Rightarrow> Inl e
      | Inr (ecfp_fingerprints, erroneous_smiles) \<Rightarrow>
          (case DataFrame ecfp_fingerprints smiles_list of
             Inl e \<Rightarrow> Inl e
           | Inr df_ecfp_fingerprints \<Rightarrow>
               if length erroneous_smiles > 0 then
                 Inr (dropna df_ecfp_fingerprints, [erroneous_report erroneous_smiles])
               else Inr (df_ecfp_fingerprints, [])))"

text \<open>A call with the defaults of the signature, \<^verbatim>\<open>radius=2, nBits=2048, useCounts=True\<close>.\<close>

definition get_ecfc_call ::
  "('mol, 'enc) engine \<Rightarrow> string list \<Rightarrow> int option \<Rightarrow> int option \<Rightarrow> bool option \<Rightarrow> outcome" where
  "get_ecfc_call eng smiles_list radius nBits useCounts =
     get_ecfc eng smiles_list
       (case radius of None \<Rightarrow> 2 | Some r \<Rightarrow> r)
       (case nBits of None \<Rightarrow> 2048 | Some n \<Rightarrow> n)
       (case useCounts of None \<Rightarrow> True | Some u \<Rightarrow> u)"

subsection \<open>\<^verbatim>\<open>get_maccs\<close>\<close>

text \<open>No call of this loop takes a parameter a library could refuse.\<close>

fun maccs_loop ::
  "('mol, 'enc) engine \<Rightarrow> string list \<Rightarrow>
   cell list list \<Rightarrow> string list \<Rightarrow> cell list list \<times> string list" where
  "maccs_loop eng [] list_maccs_fingerprint erroneous_smiles =
     (list_maccs_fingerprint, erroneous_smiles)"
| "maccs_loop eng (smiles # rest) list_maccs_fingerprint erroneous_smiles =
     (case MolFromSmiles eng smiles of
        None \<Rightarrow>
          maccs_loop eng rest
            (list_maccs_fingerprint @ [none_row 167]) (erroneous_smiles @ [smiles])
      | Some mol0 \<Rightarrow>
          (let mol = AddHs eng mol0 in
           maccs_loop eng rest
             (list_maccs_fingerprint @ [list_of_bitvect (GetMACCSKeysFingerprint eng mol)])
             erroneous_smiles))"

definition get_maccs :: "('mol, 'enc) engine \<Rightarrow> string list \<Rightarrow> outcome" where
  "get_maccs eng smiles_list =
     (case maccs_loop eng smiles_list [] [] of
        (list_maccs_fingerprint, erroneous_smiles) \<Rightarrow>
          (case DataFrame list_maccs_fingerprint smiles_list of
             Inl e \<Rightarrow> Inl e
           | Inr df_maccs_fingerprints \<Rightarrow>
               if length erroneous_smiles > 0 then
                 Inr (dropna df_maccs_fingerprints, [erroneous_report erroneous_smiles])
               else Inr (df_maccs_fingerprints, [])))"

subsection \<open>\<^verbatim>\<open>get_secfp\<close>\<close>

text \<open>The encoder object is built once, before the loop, from \<open>nBits\<close>, also when the
  list is empty; the call inside the loop passes the literal \<^verbatim>\<open>length=2048\<close>.\<close>

fun secfp_loop ::
  "('mol, 'enc) engine \<Rightarrow> 'enc \<Rightarrow> int \<Rightarrow> int \<Rightarrow> string list \<Rightarrow>
   cell list list \<Rightarrow> string list \<Rightarrow> error + (cell list list \<times> string list)" where
  "secfp_loop eng mhfp_encoder radius nBits [] list_secfp_fingerprint erroneous_smiles =
     Inr (list_secfp_fingerprint, erroneous_smiles)"
| "secfp_loop eng mhfp_encoder radius nBits (smiles # rest) list_secfp_fingerprint erroneous_smiles =
     (case MolFromSmiles eng smiles of
        None \<Rightarrow>
          secfp_loop eng mhfp_encoder radius nBits rest
            (list_secfp_fingerprint @ [none_row nBits]) (erroneous_smiles @ [smiles])
      | Some mol0 \<Rightarrow>
          (let mol = AddHs eng mol0 in
           (case secfp_from_mol eng mhfp_encoder mol 2048 radius of
              Inl e \<Rightarrow> Inl e
            | Inr fp \<Rightarrow>
                secfp_loop eng mhfp_encoder radius nBits rest
                  (list_secfp_fingerprint @ [list_of_uints fp]) erroneous_smiles)))"

definition get_secfp ::
  "('mol, 'enc) engine \<Rightarrow> string list \<Rightarrow> int \<Rightarrow> int \<Rightarrow> outcome" where
  "get_secfp eng smiles_list radius nBits =
     (case MHFPEncoder eng nBits of
        Inl e \<Rightarrow> Inl e
      | Inr mhfp_encoder \<Rightarrow>
          (case secfp_loop eng mhfp_encoder radius nBits smiles_list [] [] of
             Inl e \<Rightarrow> Inl e
           | Inr (list_secfp_fingerprint, erroneous_smiles) \<Rightarrow>
               (case DataFrame list_secfp_fingerprint smiles_list of
                  Inl e \<Rightarrow> Inl e
                | Inr df_secfp_fingerprints \<Rightarrow>
                    if length erroneous_smiles > 0 then
                      Inr (dropna df_secfp_fingerprints, [erroneous_report erroneous_smiles])
                    else Inr (df_secfp_fingerprints, []))))"

subsection \<open>The encoders in closed form\<close>

text \<open>
  What the loops compute, written without accumulators: the row one pass of a loop
  body appends for one string (or the exception it raises), the rows of a whole list
  (the first exception ends the loop), and the frame assembled from the rows. The
  lemmas below prove that the source's loops and tails compute exactly these.
\<close>

definition parses :: "('mol, 'enc) engine \<Rightarrow> string \<Rightarrow> bool" where
  "parses eng smiles \<longleftrightarrow> MolFromSmiles eng smiles \<noteq> None"

definition ecfp_row ::
  "('mol, 'enc) engine \<Rightarrow> int \<Rightarrow> int \<Rightarrow> bool \<Rightarrow> string \<Rightarrow> error + cell list" where
  "ecfp_row eng radius nBits useCounts smiles =
     (case MolFromSmiles eng smiles of
        None \<Rightarrow> Inr (none_row nBits)
      | Some mol \<Rightarrow>
          if useCounts then
            (case GetHashedMorganFingerprint eng (AddHs eng mol) radius nBits of
               Inl e \<Rightarrow> Inl e
             | Inr fp \<Rightarrow> Inr (list_of_uints fp))
          else
            (case GetMorganFingerprintAsBitVect eng (AddHs eng mol) radius nBits of
               Inl e \<Rightarrow> Inl e
             | Inr fp \<Rightarrow> Inr (list_of_str (ToBitString fp))))"

definition maccs_row :: "('mol, 'enc) engine \<Rightarrow> string \<Rightarrow> cell list" where
  "maccs_row eng smiles =
     (case MolFromSmiles eng smiles of
        None \<Rightarrow> none_row 167
      | Some mol \<Rightarrow> list_of_bitvect (GetMACCSKeysFingerprint eng (AddHs eng mol)))"

definition secfp_row ::
  "('mol, 'enc) engine \<Rightarrow> 'enc \<Rightarrow> int \<Rightarrow> int \<Rightarrow> string \<Rightarrow> error + cell list" where
  "secfp_row eng mhfp_encoder radius nBits smiles =
     (case MolFromSmiles eng smiles of
        None \<Rightarrow> Inr (none_row nBits)
      | Some mol \<Rightarrow>
          (case secfp_from_mol eng mhfp_encoder (AddHs eng mol) 2048 radius of
             Inl e \<Rightarrow> Inl e
           | Inr fp \<Rightarrow> Inr (list_of_uints fp)))"

fun collect :: "(string \<Rightarrow> error + cell list) \<Rightarrow> string list \<Rightarrow> error + cell list list" where
  "collect rowf [] = Inr []"
| "collect rowf (s # rest) =
     (case rowf s of
        Inl e \<Rightarrow> Inl e
      | Inr row \<Rightarrow> (case collect rowf rest of Inl e \<Rightarrow> Inl e | Inr rows \<Rightarrow> Inr (row # rows)))"

text \<open>The row of a pass that returned (and the empty row for one that raised).\<close>

definition row_value :: "error + cell list \<Rightarrow> cell list" where
  "row_value r = (case r of Inl e \<Rightarrow> [] | Inr row \<Rightarrow> row)"

definition ecfp_vector ::
  "('mol, 'enc) engine \<Rightarrow> int \<Rightarrow> int \<Rightarrow> bool \<Rightarrow> string \<Rightarrow> cell list" where
  "ecfp_vector eng radius nBits useCounts smiles =
     row_value (ecfp_row eng radius nBits useCounts smiles)"

definition secfp_vector ::
  "('mol, 'enc) engine \<Rightarrow> 'enc \<Rightarrow> int \<Rightarrow> int \<Rightarrow> string \<Rightarrow> cell list" where
  "secfp_vector eng mhfp_encoder radius nBits smiles =
     row_value (secfp_row eng mhfp_encoder radius nBits smiles)"

definition assemble :: "(string \<Rightarrow> cell list) \<Rightarrow> string list \<Rightarrow> frame" where
  "assemble rowf smiles_list =
     map (\<lambda>s. (s, pad (width (map rowf smiles_list)) (rowf s))) smiles_list"

definition finish :: "(string \<Rightarrow> cell list) \<Rightarrow> string list \<Rightarrow> string list \<Rightarrow> outcome" where
  "finish rowf erroneous smiles_list =
     Inr (if erroneous = [] then (assemble rowf smiles_list, [])
          else (dropna (assemble rowf smiles_list), [erroneous_report erroneous]))"

subsection \<open>Properties of a loop and of a returned table\<close>

text \<open>The loop ended with no erroneous string, the frame was built from its rows, and
  the call returned that frame as it is, without printing.\<close>

definition returned_as_assembled ::
  "error + (cell list list \<times> string list) \<Rightarrow> string list \<Rightarrow> outcome \<Rightarrow> bool" where
  "returned_as_assembled loop_result labels res \<longleftrightarrow>
     (\<exists>fps df. loop_result = Inr (fps, []) \<and> DataFrame fps labels = Inr df \<and>
        res = Inr (df, []))"

text \<open>The lengths of the rows a loop has appended.\<close>

definition appended_lengths :: "error + (cell list list \<times> string list) \<Rightarrow> nat list option" where
  "appended_lengths loop_result =
     (case loop_result of Inl e \<Rightarrow> None | Inr (fps, errs) \<Rightarrow> Some (map length fps))"

text \<open>The call returned, and every row of its table satisfies \<open>P\<close>.\<close>

definition all_rows :: "(string \<Rightarrow> cell list \<Rightarrow> bool) \<Rightarrow> outcome \<Rightarrow> bool" where
  "all_rows P res \<longleftrightarrow>
     (\<exists>df out. res = Inr (df, out) \<and> (\<forall>(label, row) \<in> set df. P label row))"

text \<open>The lengths of the rows of the returned table.\<close>

definition vector_lengths :: "outcome \<Rightarrow> nat list option" where
  "vector_lengths res =
     (case res of Inl e \<Rightarrow> None | Inr (df, out) \<Rightarrow> Some (map (\<lambda>(label, row). length row) df))"

text \<open>Kinds of cells: the integer 0 or 1; the string \<^verbatim>\<open>"0"\<close> or \<^verbatim>\<open>"1"\<close>; a number that is
  not negative.\<close>

definition is_int01 :: "cell \<Rightarrow> bool" where
  "is_int01 c \<longleftrightarrow> c = Num 0 \<or> c = Num 1"

definition is_bit_char :: "cell \<Rightarrow> bool" where
  "is_bit_char c \<longleftrightarrow> c = Str ''0'' \<or> c = Str ''1''"

definition is_count :: "cell \<Rightarrow> bool" where
  "is_count c = (case c of Num n \<Rightarrow> 0 \<le> n | _ \<Rightarrow> False)"

text \<open>The call returned, and every cell of its table satisfies \<open>P\<close>.\<close>

definition all_cells :: "(cell \<Rightarrow> bool) \<Rightarrow> outcome \<Rightarrow> bool" where
  "all_cells P res \<longleftrightarrow>
     (\<exists>df out. res = Inr (df, out) \<and> (\<forall>(label, row) \<in> set df. \<forall>c \<in> set row. P c))"

subsection \<open>A chemistry engine for running the encoders\<close>

text \<open>
  A stand-in for RDKit and mhfp, small enough to evaluate: a string parses when it is
  not empty and written in the characters below (so \<^verbatim>\<open>"XXXX"\<close>, the erroneous entry of
  the module's own test list, does not), a molecule is its string, and a fingerprint
  hashes the character codes into the buckets. It keeps the documented lengths, and
  it refuses what the libraries refuse: a \<open>radius\<close> or \<open>nBits\<close> that is no unsigned
  32-bit integer, \<open>nBits = 0\<close>, and a negative number of permutations or length.
\<close>

definition smiles_alphabet :: string where
  "smiles_alphabet = ''CNOHSPFIBrclnos()[]=#+-@/0123456789''"

definition bucket :: "int \<Rightarrow> char \<Rightarrow> nat" where
  "bucket n c = of_char c mod nat n"

definition rdkit_refuses :: "int \<Rightarrow> int \<Rightarrow> error option" where
  "rdkit_refuses radius nBits =
     (if radius < 0 \<or> 4294967296 \<le> radius \<or> nBits < 0 \<or> 4294967296 \<le> nBits
      then Some OverflowError
      else if nBits = 0 then Some ValueError
      else None)"

definition demo_engine :: "(string, int) engine" where
  "demo_engine =
     \<lparr> MolFromSmiles =
         (\<lambda>s. if s \<noteq> [] \<and> list_all (\<lambda>c. c \<in> set smiles_alphabet) s then Some s else None),
       AddHs = (\<lambda>mol. mol),
       GetHashedMorganFingerprint =
         (\<lambda>mol radius nBits.
            case rdkit_refuses radius nBits of
              Some e \<Rightarrow> Inl e
            | None \<Rightarrow> Inr (map (\<lambda>i. count_list (map (bucket nBits) mol) i) [0..<nat nBits])),
       GetMorganFingerprintAsBitVect =
         (\<lambda>mol radius nBits.
            case rdkit_refuses radius nBits of
              Some e \<Rightarrow> Inl e
            | None \<Rightarrow> Inr (map (\<lambda>i. i \<in> set (map (bucket nBits) mol)) [0..<nat nBits])),
       GetMACCSKeysFingerprint =
         (\<lambda>mol. map (\<lambda>i. i \<in> set (map of_char mol)) [0..<167]),
       MHFPEncoder =
         (\<lambda>n_permutations. if n_permutations < 0 then Inl ValueError else Inr n_permutations),
       secfp_from_mol =
         (\<lambda>enc mol len radius.
            if len < 0 then Inl ValueError
            else Inr (map (\<lambda>i. if i \<in> set (map (bucket len) mol) then 1 else 0) [0..<nat len])) \<rparr>"

text \<open>The same engine with a key function that breaks the documented length: its vector
  is as long as the string.\<close>

definition ragged_engine :: "(string, int) engine" where
  "ragged_engine = demo_engine \<lparr> GetMACCSKeysFingerprint := (\<lambda>mol. map (\<lambda>c. True) mol) \<rparr>"

section \<open>The loops and tails in closed form\<close>

lemma collect_Inr: "\<forall>s \<in> set l. rowf s = Inr (v s) \<Longrightarrow> collect rowf l = Inr (map v l)"
  by (induction l) simp_all

lemma ecfp_loop_closed:
  "ecfp_loop eng radius nBits useCounts smiles_list fps errs =
     (case collect (ecfp_row eng radius nBits useCounts) smiles_list of
        Inl e \<Rightarrow> Inl e
      | Inr rows \<Rightarrow> Inr (fps @ rows, errs @ filter (\<lambda>s. \<not> parses eng s) smiles_list))"
  by (induction smiles_list arbitrary: fps errs)
     (auto simp: ecfp_row_def parses_def Let_def split: option.splits sum.splits)

lemma ecfc_loop_closed:
  "ecfc_loop eng radius nBits useCounts smiles_list fps errs =
     (case collect (ecfp_row eng radius nBits useCounts) smiles_list of
        Inl e \<Rightarrow> Inl e
      | Inr rows \<Rightarrow> Inr (fps @ rows, errs @ filter (\<lambda>s. \<not> parses eng s) smiles_list))"
  by (induction smiles_list arbitrary: fps errs)
     (auto simp: ecfp_row_def parses_def Let_def split: option.splits sum.splits)

lemma maccs_loop_closed:
  "maccs_loop eng smiles_list fps errs =
     (fps @ map (maccs_row eng) smiles_list,
      errs @ filter (\<lambda>s. \<not> parses eng s) smiles_list)"
  by (induction smiles_list arbitrary: fps errs)
     (auto simp: maccs_row_def parses_def Let_def split: option.splits)

lemma secfp_loop_closed:
  "secfp_loop eng enc radius nBits smiles_list fps errs =
     (case collect (secfp_row eng enc radius nBits) smiles_list of
        Inl e \<Rightarrow> Inl e
      | Inr rows \<Rightarrow> Inr (fps @ rows, errs @ filter (\<lambda>s. \<not> parses eng s) smiles_list))"
  by (induction smiles_list arbitrary: fps errs)
     (auto simp: secfp_row_def parses_def Let_def split: option.splits sum.splits)

lemma DataFrame_map: "DataFrame (map rowf smiles_list) smiles_list = Inr (assemble rowf smiles_list)"
proof (cases smiles_list)
  case Nil
  then show ?thesis by (simp add: DataFrame_def assemble_def)
next
  case (Cons s rest)
  show ?thesis
  proof (cases rest)
    case Nil
    with Cons show ?thesis by (simp add: DataFrame_def assemble_def width_def pad_def)
  next
    case (Cons t rest')
    with \<open>smiles_list = s # rest\<close> show ?thesis
      by (simp add: DataFrame_def assemble_def zip_map2 zip_same_conv_map)
  qed
qed

lemma get_ecfp_closed:
  assumes "\<forall>s \<in> set smiles_list. ecfp_row eng radius nBits useCounts s = Inr (v s)"
  shows "get_ecfp eng smiles_list radius nBits useCounts =
           finish v (filter (\<lambda>s. \<not> parses eng s) smiles_list) smiles_list"
  by (simp add: get_ecfp_def ecfp_loop_closed collect_Inr [OF assms] DataFrame_map finish_def)

lemma get_ecfc_eq_get_ecfp:
  "get_ecfc eng smiles_list radius nBits useCounts = get_ecfp eng smiles_list radius nBits useCounts"
  by (simp add: get_ecfc_def get_ecfp_def ecfc_loop_closed ecfp_loop_closed)

lemma get_maccs_closed:
  "get_maccs eng smiles_list =
     finish (maccs_row eng) (filter (\<lambda>s. \<not> parses eng s) smiles_list) smiles_list"
  by (simp add: get_maccs_def maccs_loop_closed DataFrame_map finish_def)

lemma get_secfp_closed:
  assumes "MHFPEncoder eng nBits = Inr enc"
    and "\<forall>s \<in> set smiles_list. secfp_row eng enc radius nBits s = Inr (v s)"
  shows "get_secfp eng smiles_list radius nBits =
           finish v (filter (\<lambda>s. \<not> parses eng s) smiles_list) smiles_list"
  by (simp add: get_secfp_def assms(1) secfp_loop_closed collect_Inr [OF assms(2)]
      DataFrame_map finish_def)

section \<open>Assembling and filtering a table\<close>

lemma length_le_width: "r \<in> set data \<Longrightarrow> length r \<le> width data"
  unfolding width_def by (induction data) auto

lemma width_le: "(\<And>r. r \<in> set data \<Longrightarrow> length r \<le> W) \<Longrightarrow> width data \<le> W"
  unfolding width_def by (induction data) auto

lemma pad_id: "w \<le> length r \<Longrightarrow> pad w r = r"
  by (simp add: pad_def)

lemma pad_no_None: "PyNone \<notin> set (pad w r) \<Longrightarrow> pad w r = r"
  by (cases "w \<le> length r") (auto simp: pad_def)

lemma pad_none_row: "0 < p \<Longrightarrow> PyNone \<in> set (pad w (replicate p PyNone))"
  by (simp add: pad_def)

lemma assemble_row:
  "(label, row) \<in> set (assemble rowf l) \<Longrightarrow>
     label \<in> set l \<and> row = pad (width (map rowf l)) (rowf label)"
  by (auto simp: assemble_def)

lemma dropna_row:
  "(label, row) \<in> set (dropna df) \<longleftrightarrow> (label, row) \<in> set df \<and> PyNone \<notin> set row"
  by (auto simp: dropna_def)

lemma placeholder_dropped:
  assumes "rowf s = replicate p PyNone" and "0 < p"
  shows "s \<notin> fst ` set (dropna (assemble rowf l))"
proof
  assume "s \<in> fst ` set (dropna (assemble rowf l))"
  then obtain row where "(s, row) \<in> set (dropna (assemble rowf l))" by force
  then have "row = pad (width (map rowf l)) (rowf s)" and "PyNone \<notin> set row"
    by (auto simp: dropna_row dest: assemble_row)
  with assms pad_none_row show False by metis
qed

lemma uniform_assemble:
  assumes "\<And>s. s \<in> set l \<Longrightarrow> length (rowf s) = W"
  shows "assemble rowf l = map (\<lambda>s. (s, rowf s)) l"
proof -
  have "width (map rowf l) \<le> W"
    by (rule width_le) (auto simp: assms)
  then have "\<And>s. s \<in> set l \<Longrightarrow> pad (width (map rowf l)) (rowf s) = rowf s"
    by (simp add: pad_id assms)
  then show ?thesis by (simp add: assemble_def)
qed

lemma finish_rows:
  assumes res: "finish rowf (filter (\<lambda>s. \<not> valid s) l) l = Inr (df, out)"
    and row: "(label, row) \<in> set df"
    and clean: "\<And>s. valid s \<Longrightarrow> PyNone \<notin> set (rowf s)"
    and len: "\<And>s. valid s \<Longrightarrow> length (rowf s) = W"
  shows "label \<in> set l \<and> row = rowf label \<and> PyNone \<notin> set row"
proof (cases "filter (\<lambda>s. \<not> valid s) l = []")
  case True
  then have all: "\<And>s. s \<in> set l \<Longrightarrow> valid s"
    by (auto simp: filter_empty_conv)
  from True res have "df = assemble rowf l" by (simp add: finish_def)
  also have "\<dots> = map (\<lambda>s. (s, rowf s)) l"
    by (rule uniform_assemble) (simp add: all len)
  finally show ?thesis using row all clean by auto
next
  case False
  with res have "df = dropna (assemble rowf l)" by (simp add: finish_def)
  with row have a: "(label, row) \<in> set (assemble rowf l)" and n: "PyNone \<notin> set row"
    by (simp_all add: dropna_row)
  from a have "label \<in> set l" and "row = pad (width (map rowf l)) (rowf label)"
    by (auto dest: assemble_row)
  with n pad_no_None show ?thesis by metis
qed

lemma dropna_assemble:
  assumes none: "\<And>s. \<not> valid s \<Longrightarrow> rowf s = replicate p PyNone"
    and pos: "0 < p" and le: "p \<le> W"
    and clean: "\<And>s. valid s \<Longrightarrow> PyNone \<notin> set (rowf s)"
    and len: "\<And>s. valid s \<Longrightarrow> length (rowf s) = W"
  shows "dropna (assemble rowf l) = map (\<lambda>s. (s, rowf s)) (filter valid l)"
proof -
  let ?w = "width (map rowf l)"
  have "?w \<le> W"
  proof (rule width_le)
    fix r assume "r \<in> set (map rowf l)"
    then obtain s where "r = rowf s" by auto
    then show "length r \<le> W" using none [of s] len [of s] le by (cases "valid s") auto
  qed
  then have keep: "\<And>s. valid s \<Longrightarrow> pad ?w (rowf s) = rowf s"
    by (simp add: pad_id len)
  have drop: "\<And>s. \<not> valid s \<Longrightarrow> PyNone \<in> set (pad ?w (rowf s))"
    using none pos by (simp add: pad_none_row)
  have "\<And>s. (PyNone \<notin> set (pad ?w (rowf s))) = valid s"
    using keep clean drop by metis
  then have "dropna (assemble rowf l) = map (\<lambda>s. (s, pad ?w (rowf s))) (filter valid l)"
    by (simp add: dropna_def assemble_def filter_map o_def)
  also have "\<dots> = map (\<lambda>s. (s, rowf s)) (filter valid l)"
    by (rule map_cong) (simp_all add: keep)
  finally show ?thesis .
qed

lemma finish_all_valid: "finish rowf [] l = Inr (assemble rowf l, [])"
  by (simp add: finish_def)

lemma assemble_labels: "map fst (assemble rowf l) = l"
  by (simp add: assemble_def o_def)

lemma finish_Inr: "\<exists>df out. finish rowf errs l = Inr (df, out)"
  by (cases "errs = []") (simp_all add: finish_def)

lemma finish_all_rows:
  assumes clean: "\<And>s. valid s \<Longrightarrow> PyNone \<notin> set (rowf s)"
    and len: "\<And>s. valid s \<Longrightarrow> length (rowf s) = W"
  shows "all_rows (\<lambda>label row. valid label \<longrightarrow> length row = W)
           (finish rowf (filter (\<lambda>s. \<not> valid s) l) l)"
proof -
  obtain df out where r: "finish rowf (filter (\<lambda>s. \<not> valid s) l) l = Inr (df, out)"
    using finish_Inr by blast
  have "valid label \<longrightarrow> length row = W" if "(label, row) \<in> set df" for label row
    using finish_rows [OF r that clean len] len by auto
  then have "\<forall>(label, row) \<in> set df. valid label \<longrightarrow> length row = W" by blast
  with r show ?thesis unfolding all_rows_def by blast
qed

lemma finish_all_cells:
  assumes none: "\<And>s. \<not> valid s \<Longrightarrow> rowf s = replicate p PyNone"
    and clean: "\<And>s. valid s \<Longrightarrow> PyNone \<notin> set (rowf s)"
    and len: "\<And>s. valid s \<Longrightarrow> length (rowf s) = W"
    and cells: "\<And>s c. valid s \<Longrightarrow> c \<in> set (rowf s) \<Longrightarrow> P c"
  shows "all_cells P (finish rowf (filter (\<lambda>s. \<not> valid s) l) l)"
proof -
  obtain df out where r: "finish rowf (filter (\<lambda>s. \<not> valid s) l) l = Inr (df, out)"
    using finish_Inr by blast
  have "P c" if "(label, row) \<in> set df" and "c \<in> set row" for label row c
  proof -
    from finish_rows [OF r that(1) clean len]
    have row: "row = rowf label" and nn: "PyNone \<notin> set row" by blast+
    show ?thesis
    proof (cases "valid label")
      case True
      with cells that(2) row show ?thesis by simp
    next
      case False
      with none row have "row = replicate p PyNone" by simp
      with nn that(2) show ?thesis by auto
    qed
  qed
  then have "\<forall>(label, row) \<in> set df. \<forall>c \<in> set row. P c" by blast
  with r show ?thesis unfolding all_cells_def by blast
qed

section \<open>The row of one string\<close>

lemma returned_row: "returned r \<Longrightarrow> r = Inr (row_value r)"
  by (cases r) (simp_all add: returned_def row_value_def)

lemma ecfp_row_returned:
  "morgan_accepts eng radius nBits \<Longrightarrow>
     ecfp_row eng radius nBits useCounts s = Inr (ecfp_vector eng radius nBits useCounts s)"
  unfolding ecfp_vector_def
  by (rule returned_row)
     (auto simp: ecfp_row_def morgan_accepts_def returned_def split: option.splits sum.splits)

lemma ecfp_vector_invalid:
  "\<not> parses eng s \<Longrightarrow> ecfp_vector eng radius nBits useCounts s = replicate (nat nBits) PyNone"
  by (simp add: ecfp_vector_def ecfp_row_def parses_def none_row_def row_value_def)

lemma ecfp_vector_clean:
  "parses eng s \<Longrightarrow> PyNone \<notin> set (ecfp_vector eng radius nBits useCounts s)"
  by (auto simp: ecfp_vector_def ecfp_row_def parses_def list_of_uints_def list_of_str_def
      row_value_def split: if_splits sum.splits)

lemma ecfp_vector_length:
  "morgan_widths eng \<Longrightarrow> morgan_accepts eng radius nBits \<Longrightarrow>
     length (ecfp_vector eng radius nBits useCounts s) = nat nBits"
  by (auto simp: ecfp_vector_def ecfp_row_def morgan_widths_def morgan_accepts_def returned_def
      none_row_def list_of_uints_def list_of_str_def ToBitString_def row_value_def
      split: option.splits sum.splits)

lemma ecfp_vector_bits:
  "parses eng s \<Longrightarrow> c \<in> set (ecfp_vector eng radius nBits False s) \<Longrightarrow> is_bit_char c"
  by (auto simp: ecfp_vector_def ecfp_row_def parses_def list_of_str_def ToBitString_def
      is_bit_char_def row_value_def split: sum.splits)

lemma ecfp_vector_counts:
  "parses eng s \<Longrightarrow> c \<in> set (ecfp_vector eng radius nBits True s) \<Longrightarrow> is_count c"
  by (auto simp: ecfp_vector_def ecfp_row_def parses_def list_of_uints_def is_count_def
      row_value_def split: sum.splits)

lemma maccs_row_invalid: "\<not> parses eng s \<Longrightarrow> maccs_row eng s = replicate 167 PyNone"
  by (simp add: maccs_row_def parses_def none_row_def)

lemma maccs_row_clean: "parses eng s \<Longrightarrow> PyNone \<notin> set (maccs_row eng s)"
  by (auto simp: maccs_row_def parses_def list_of_bitvect_def)

lemma maccs_row_length: "maccs_width eng \<Longrightarrow> length (maccs_row eng s) = 167"
  by (auto simp: maccs_row_def maccs_width_def none_row_def list_of_bitvect_def
      split: option.splits)

lemma secfp_row_returned:
  "secfp_accepts eng radius \<Longrightarrow>
     secfp_row eng enc radius nBits s = Inr (secfp_vector eng enc radius nBits s)"
  unfolding secfp_vector_def
  by (rule returned_row)
     (auto simp: secfp_row_def secfp_accepts_def returned_def split: option.splits sum.splits)

lemma secfp_vector_invalid:
  "\<not> parses eng s \<Longrightarrow> secfp_vector eng enc radius nBits s = replicate (nat nBits) PyNone"
  by (simp add: secfp_vector_def secfp_row_def parses_def none_row_def row_value_def)

lemma secfp_vector_clean: "parses eng s \<Longrightarrow> PyNone \<notin> set (secfp_vector eng enc radius nBits s)"
  by (auto simp: secfp_vector_def secfp_row_def parses_def list_of_uints_def row_value_def
      split: sum.splits)

lemma secfp_vector_length:
  "secfp_width eng \<Longrightarrow> secfp_accepts eng radius \<Longrightarrow> parses eng s \<Longrightarrow>
     length (secfp_vector eng enc radius nBits s) = 2048"
  by (auto simp: secfp_vector_def secfp_row_def secfp_width_def secfp_accepts_def returned_def
      parses_def list_of_uints_def row_value_def split: sum.splits)

lemma get_ecfp_accepted:
  "morgan_accepts eng radius nBits \<Longrightarrow>
     get_ecfp eng smiles_list radius nBits useCounts =
       finish (ecfp_vector eng radius nBits useCounts)
         (filter (\<lambda>s. \<not> parses eng s) smiles_list) smiles_list"
  by (rule get_ecfp_closed [where v = "ecfp_vector eng radius nBits useCounts"])
     (simp add: ecfp_row_returned)

lemma get_secfp_accepted:
  "MHFPEncoder eng nBits = Inr enc \<Longrightarrow> secfp_accepts eng radius \<Longrightarrow>
     get_secfp eng smiles_list radius nBits =
       finish (secfp_vector eng enc radius nBits)
         (filter (\<lambda>s. \<not> parses eng s) smiles_list) smiles_list"
  by (rule get_secfp_closed [where enc = enc and v = "secfp_vector eng enc radius nBits"])
     (simp_all add: secfp_row_returned)

lemma mhfp_accepts_encoder:
  "mhfp_accepts eng radius nBits \<Longrightarrow> \<exists>enc. MHFPEncoder eng nBits = Inr enc"
  by (cases "MHFPEncoder eng nBits") (simp_all add: mhfp_accepts_def returned_def)

section \<open>The stand-in engine\<close>

lemma demo_morgan_widths: "morgan_widths demo_engine"
  by (auto simp: morgan_widths_def demo_engine_def split: option.splits)

lemma demo_maccs_width: "maccs_width demo_engine"
  by (simp add: maccs_width_def demo_engine_def)

lemma demo_secfp_width: "secfp_width demo_engine"
  by (auto simp: secfp_width_def demo_engine_def split: if_splits)

lemma demo_morgan_accepts:
  "0 \<le> radius \<Longrightarrow> radius < 4294967296 \<Longrightarrow> 0 < nBits \<Longrightarrow> nBits < 4294967296 \<Longrightarrow>
     morgan_accepts demo_engine radius nBits"
  by (simp add: morgan_accepts_def demo_engine_def rdkit_refuses_def returned_def)

lemma demo_secfp_accepts: "secfp_accepts demo_engine radius"
  by (simp add: secfp_accepts_def demo_engine_def returned_def)

lemma demo_encoder: "0 \<le> nBits \<Longrightarrow> MHFPEncoder demo_engine nBits = Inr nBits"
  by (simp add: demo_engine_def)

lemma demo_mhfp_accepts: "0 \<le> nBits \<Longrightarrow> mhfp_accepts demo_engine radius nBits"
  by (simp add: mhfp_accepts_def demo_secfp_accepts demo_encoder returned_def)

lemma demo_parses:
  "parses demo_engine ''CCCC''" "parses demo_engine ''CO''" "parses demo_engine ''C''"
  "\<not> parses demo_engine ''XXXX''"
  by (simp_all add: parses_def demo_engine_def smiles_alphabet_def)

lemma ragged_parses: "parses ragged_engine s = parses demo_engine s"
  by (simp add: parses_def ragged_engine_def)

lemma all_valid_no_errs: "(\<forall>s \<in> set l. parses eng s) \<Longrightarrow> filter (\<lambda>s. \<not> parses eng s) l = []"
  by (simp add: filter_empty_conv)

section \<open>The claims\<close>

lemma ecfp_row_length:
  "morgan_widths eng \<Longrightarrow> ecfp_row eng radius nBits useCounts s = Inr row \<Longrightarrow>
     length row = nat nBits"
  by (auto simp: ecfp_row_def morgan_widths_def none_row_def list_of_uints_def list_of_str_def
      ToBitString_def split: option.splits sum.splits if_splits)

lemma secfp_row_length:
  "secfp_width eng \<Longrightarrow> parses eng s \<Longrightarrow> secfp_row eng enc radius nBits s = Inr row \<Longrightarrow>
     length row = 2048"
  by (auto simp: secfp_row_def secfp_width_def parses_def list_of_uints_def
      split: option.splits sum.splits)

lemma pad_short: "length r < w \<Longrightarrow> PyNone \<in> set (pad w r)"
  by (simp add: pad_def)

lemma dropna_all_null: "(\<And>label row. (label, row) \<in> set df \<Longrightarrow> PyNone \<in> set row) \<Longrightarrow> dropna df = []"
  by (auto simp: dropna_def filter_empty_conv)

lemma dropna_no_null: "(\<And>label row. (label, row) \<in> set df \<Longrightarrow> PyNone \<notin> set row) \<Longrightarrow> dropna df = df"
  by (auto simp: dropna_def filter_id_conv)

text \<open>The Morgan encoders pass \<open>nBits\<close> on to the library: their rows have \<open>nBits\<close>
  entries.\<close>

lemma ecfp_rows_have_nBits_entries:
  assumes "morgan_widths eng" and "morgan_accepts eng radius nBits"
  shows "all_rows (\<lambda>label row. parses eng label \<longrightarrow> length row = nat nBits)
           (get_ecfp eng smiles_list radius nBits useCounts)"
  unfolding get_ecfp_accepted [OF assms(2)]
  by (rule finish_all_rows) (simp_all add: assms ecfp_vector_clean ecfp_vector_length)

text \<open>
  Claim C1 says that every valid row returned by \<^verbatim>\<open>get_secfp(smiles_list, radius, nBits)\<close>
  has exactly \<open>nBits\<close> entries, as the docstring does (\<open>nBits\<close>: the number of bits of
  the fingerprint vector). The code passes the literal \<^verbatim>\<open>length=2048\<close> to
  \<^verbatim>\<open>secfp_from_mol\<close> and uses \<open>nBits\<close> for the permutation count and the placeholder row
  only. What it does: when the library accepts the parameters and returns vectors of
  the length it documents, \<^verbatim>\<open>get_secfp\<close> returns, and every row it returns for a string
  that parses has 2048 entries, whatever \<open>nBits\<close> is.
\<close>

theorem secfp_rows_have_2048_entries:
  assumes "secfp_width eng" and "mhfp_accepts eng radius nBits"
  shows "all_rows (\<lambda>label row. parses eng label \<longrightarrow> length row = 2048)
           (get_secfp eng smiles_list radius nBits)"
proof -
  from assms(2) obtain enc where enc: "MHFPEncoder eng nBits = Inr enc"
    using mhfp_accepts_encoder by blast
  from assms(2) have acc: "secfp_accepts eng radius" by (simp add: mhfp_accepts_def)
  show ?thesis
    unfolding get_secfp_accepted [OF enc acc]
    by (rule finish_all_rows) (simp_all add: assms(1) acc secfp_vector_clean secfp_vector_length)
qed

text \<open>Witness for C1, at the failing input: \<open>nBits = 1024\<close> gives a row of 2048 entries.\<close>

theorem secfp_rows_have_2048_entries_witness:
  "secfp_width demo_engine \<and> mhfp_accepts demo_engine 3 1024 \<and> parses demo_engine ''CO'' \<and>
   vector_lengths (get_secfp demo_engine [''CO''] 3 1024) = Some [2048]"
proof -
  have acc: "mhfp_accepts demo_engine 3 1024" by (simp add: demo_mhfp_accepts)
  have rows: "all_rows (\<lambda>label row. parses demo_engine label \<longrightarrow> length row = 2048)
      (get_secfp demo_engine [''CO''] 3 1024)"
    using secfp_rows_have_2048_entries [OF demo_secfp_width acc] .
  have "get_secfp demo_engine [''CO''] 3 1024 =
      Inr (assemble (secfp_vector demo_engine 1024 3 1024) [''CO''], [])"
    by (simp add: get_secfp_accepted [OF demo_encoder demo_secfp_accepts] demo_parses
        finish_all_valid)
  with rows have "vector_lengths (get_secfp demo_engine [''CO''] 3 1024) = Some [2048]"
    by (simp add: all_rows_def vector_lengths_def assemble_def demo_parses)
  then show ?thesis by (simp add: demo_secfp_width acc demo_parses)
qed

text \<open>
  Claim C2 says that a placeholder row has the length of the rows computed for valid
  strings in the same call. The rows the loops append, when the library accepts the
  parameters: in \<^verbatim>\<open>get_ecfp\<close> and \<^verbatim>\<open>get_ecfc\<close> all have \<open>nBits\<close> entries and in
  \<^verbatim>\<open>get_maccs\<close> all have 167, as claimed; in \<^verbatim>\<open>get_secfp\<close> a valid string gets 2048
  entries and an erroneous one \<open>nBits\<close>, so the two differ unless \<open>nBits = 2048\<close>.
\<close>

theorem loop_row_lengths:
  "(morgan_widths eng \<and> morgan_accepts eng radius nBits \<longrightarrow>
      appended_lengths (ecfp_loop eng radius nBits useCounts smiles_list [] []) =
        Some (map (\<lambda>s. nat nBits) smiles_list) \<and>
      appended_lengths (ecfc_loop eng radius nBits useCounts smiles_list [] []) =
        Some (map (\<lambda>s. nat nBits) smiles_list)) \<and>
   (maccs_width eng \<longrightarrow>
      map length (fst (maccs_loop eng smiles_list [] [])) = map (\<lambda>s. 167) smiles_list) \<and>
   (secfp_width eng \<and> secfp_accepts eng radius \<longrightarrow>
      appended_lengths (secfp_loop eng enc radius nBits smiles_list [] []) =
        Some (map (\<lambda>s. if parses eng s then 2048 else nat nBits) smiles_list))"
proof -
  have "appended_lengths (ecfp_loop eng radius nBits useCounts smiles_list [] []) =
      Some (map (\<lambda>s. nat nBits) smiles_list)"
    if "morgan_widths eng" and "morgan_accepts eng radius nBits"
    using that
    by (simp add: appended_lengths_def ecfp_loop_closed
        collect_Inr [where v = "ecfp_vector eng radius nBits useCounts"] ecfp_row_returned
        ecfp_vector_length)
  moreover have "map length (fst (maccs_loop eng smiles_list [] [])) =
      map (\<lambda>s. 167) smiles_list" if "maccs_width eng"
    using that by (simp add: maccs_loop_closed maccs_row_length)
  moreover have "appended_lengths (secfp_loop eng enc radius nBits smiles_list [] []) =
      Some (map (\<lambda>s. if parses eng s then 2048 else nat nBits) smiles_list)"
    if "secfp_width eng" and "secfp_accepts eng radius"
    using that
    by (simp add: appended_lengths_def secfp_loop_closed
        collect_Inr [where v = "secfp_vector eng enc radius nBits"] secfp_row_returned
        secfp_vector_length secfp_vector_invalid)
  ultimately show ?thesis
    by (simp add: ecfc_loop_closed ecfp_loop_closed)
qed

text \<open>Witness for C2, at the failing input: with \<open>nBits = 1024\<close> the rows appended by
  \<^verbatim>\<open>get_secfp\<close> have 2048 and 1024 entries.\<close>

theorem loop_row_lengths_witness:
  "morgan_widths demo_engine \<and> morgan_accepts demo_engine 2 1024 \<and>
   secfp_width demo_engine \<and> secfp_accepts demo_engine 3 \<and>
   parses demo_engine ''CO'' \<and> \<not> parses demo_engine ''XXXX'' \<and>
   appended_lengths (ecfp_loop demo_engine 2 1024 False [''CO'', ''XXXX''] [] []) =
     Some [1024, 1024] \<and>
   appended_lengths (secfp_loop demo_engine 1024 3 1024 [''CO'', ''XXXX''] [] []) =
     Some [2048, 1024]"
proof -
  have acc: "morgan_accepts demo_engine 2 1024" by (simp add: demo_morgan_accepts)
  have "appended_lengths (ecfp_loop demo_engine 2 1024 False [''CO'', ''XXXX''] [] []) =
      Some (map (\<lambda>s. nat 1024) [''CO'', ''XXXX''])"
    using loop_row_lengths [of demo_engine 2 1024 False "[''CO'', ''XXXX'']"]
      demo_morgan_widths acc by blast
  moreover have "appended_lengths (secfp_loop demo_engine 1024 3 1024 [''CO'', ''XXXX''] [] []) =
      Some (map (\<lambda>s. if parses demo_engine s then 2048 else nat 1024) [''CO'', ''XXXX''])"
    using loop_row_lengths [of demo_engine 3 1024 False "[''CO'', ''XXXX'']" 1024]
      demo_secfp_width demo_secfp_accepts by blast
  ultimately show ?thesis
    by (simp add: demo_morgan_widths acc demo_secfp_width demo_secfp_accepts demo_parses)
qed

text \<open>
  Claim C3. \<^verbatim>\<open>get_ecfc(smiles_list, radius, nBits)\<close>, with \<open>useCounts\<close> left out, gives
  what \<^verbatim>\<open>get_ecfp(smiles_list, radius, nBits, useCounts=True)\<close> gives, table and printed
  text (or exception) alike (here also with \<open>radius\<close> or \<open>nBits\<close> left out, their
  defaults being the same); with \<open>useCounts\<close> passed the two functions agree; and the
  default of \<open>useCounts\<close> is the one difference: \<^verbatim>\<open>get_ecfp\<close> takes it as \<open>False\<close>.
\<close>

theorem get_ecfc_is_get_ecfp_with_counts:
  "get_ecfc_call eng smiles_list radius nBits None =
     get_ecfp_call eng smiles_list radius nBits (Some True) \<and>
   get_ecfc_call eng smiles_list radius nBits (Some useCounts) =
     get_ecfp_call eng smiles_list radius nBits (Some useCounts) \<and>
   get_ecfp_call eng smiles_list radius nBits None =
     get_ecfp_call eng smiles_list radius nBits (Some False)"
  by (simp add: get_ecfc_call_def get_ecfp_call_def get_ecfc_eq_get_ecfp)

text \<open>
  Claim C4, amended. When RDKit accepts \<open>radius\<close> and \<open>nBits\<close> and returns Morgan
  vectors of the documented length, every cell of the table \<^verbatim>\<open>get_ecfp\<close> returns with
  \<open>useCounts=False\<close> is the one-character string \<^verbatim>\<open>"0"\<close> or \<^verbatim>\<open>"1"\<close> (the characters
  of \<^verbatim>\<open>ToBitString()\<close>), and with \<open>useCounts=True\<close> every cell is a number that is not
  negative.
\<close>

theorem ecfp_cells_are_bit_characters_or_counts:
  assumes "morgan_widths eng" and "morgan_accepts eng radius nBits"
  shows "all_cells is_bit_char (get_ecfp eng smiles_list radius nBits False) \<and>
         all_cells is_count (get_ecfp eng smiles_list radius nBits True)"
proof
  show "all_cells is_bit_char (get_ecfp eng smiles_list radius nBits False)"
    unfolding get_ecfp_accepted [OF assms(2)]
    by (rule finish_all_cells [where p = "nat nBits" and W = "nat nBits"])
       (simp_all add: assms ecfp_vector_invalid ecfp_vector_clean ecfp_vector_length
         ecfp_vector_bits)
  show "all_cells is_count (get_ecfp eng smiles_list radius nBits True)"
    unfolding get_ecfp_accepted [OF assms(2)]
    by (rule finish_all_cells [where p = "nat nBits" and W = "nat nBits"])
       (simp_all add: assms ecfp_vector_invalid ecfp_vector_clean ecfp_vector_length
         ecfp_vector_counts)
qed

lemma demo_ecfp_bits_table:
  "get_ecfp demo_engine [''CO'', ''XXXX''] 2 4 False =
     Inr ([(''CO'', [Str ''0'', Str ''0'', Str ''0'', Str ''1''])], [erroneous_report [''XXXX'']])"
  by code_simp

lemma demo_ecfp_counts_table:
  "get_ecfp demo_engine [''CO'', ''XXXX''] 2 4 True =
     Inr ([(''CO'', [Num 0, Num 0, Num 0, Num 2])], [erroneous_report [''XXXX'']])"
  by code_simp

text \<open>Witness for C4: both modes on a valid and an erroneous string.\<close>

theorem ecfp_cells_are_bit_characters_or_counts_witness:
  "morgan_widths demo_engine \<and> morgan_accepts demo_engine 2 4 \<and>
   all_cells is_bit_char (get_ecfp demo_engine [''CO'', ''XXXX''] 2 4 False) \<and>
   all_cells is_count (get_ecfp demo_engine [''CO'', ''XXXX''] 2 4 True) \<and>
   get_ecfp demo_engine [''CO'', ''XXXX''] 2 4 False =
     Inr ([(''CO'', [Str ''0'', Str ''0'', Str ''0'', Str ''1''])], [erroneous_report [''XXXX'']]) \<and>
   get_ecfp demo_engine [''CO'', ''XXXX''] 2 4 True =
     Inr ([(''CO'', [Num 0, Num 0, Num 0, Num 2])], [erroneous_report [''XXXX'']])"
proof -
  have acc: "morgan_accepts demo_engine 2 4" by (simp add: demo_morgan_accepts)
  from ecfp_cells_are_bit_characters_or_counts [OF demo_morgan_widths acc, of "[''CO'', ''XXXX'']"]
  show ?thesis
    using demo_morgan_widths acc demo_ecfp_bits_table demo_ecfp_counts_table by simp
qed

lemma demo_ecfp_bits_valid_table:
  "get_ecfp demo_engine [''CO''] 2 4 False =
     Inr ([(''CO'', [Str ''0'', Str ''0'', Str ''0'', Str ''1''])], [])"
  by code_simp

text \<open>
  Counterexample to C4 as stated: in bit mode the cells of the row for \<^verbatim>\<open>"CO"\<close> are
  strings, none of them the integer 0 or 1.
\<close>

theorem bit_mode_cells_are_strings:
  "get_ecfp demo_engine [''CO''] 2 4 False =
     Inr ([(''CO'', [Str ''0'', Str ''0'', Str ''0'', Str ''1''])], []) \<and>
   \<not> all_cells is_int01 (get_ecfp demo_engine [''CO''] 2 4 False)"
  by (simp add: demo_ecfp_bits_valid_table all_cells_def is_int01_def)

text \<open>
  Claim C5 says that the returned table has no row for a string that does not parse.
  The code drops a placeholder by its nulls only; with \<open>nBits \<le> 0\<close> the placeholder
  \<^verbatim>\<open>[None]*nBits\<close> is empty and holds none. What the code does there, for a list of
  strings none of which parses: it prints the report (whose last line says the
  erroneous SMILES will be removed) and returns a table with one empty row for every
  input string.
\<close>

theorem zero_width_placeholders_are_kept:
  assumes "smiles_list \<noteq> []" and "\<forall>s \<in> set smiles_list. \<not> parses eng s" and "nBits \<le> 0"
  shows "get_ecfp eng smiles_list radius nBits useCounts =
           Inr (map (\<lambda>s. (s, [])) smiles_list, [erroneous_report smiles_list]) \<and>
         get_ecfc eng smiles_list radius nBits useCounts =
           Inr (map (\<lambda>s. (s, [])) smiles_list, [erroneous_report smiles_list]) \<and>
         (returned (MHFPEncoder eng nBits) \<longrightarrow>
            get_secfp eng smiles_list radius nBits =
              Inr (map (\<lambda>s. (s, [])) smiles_list, [erroneous_report smiles_list]))"
proof -
  have errs: "filter (\<lambda>s. \<not> parses eng s) smiles_list = smiles_list"
    using assms(2) by (simp add: filter_id_conv)
  have frame: "assemble (\<lambda>s. []) smiles_list = map (\<lambda>s. (s, [])) smiles_list"
    by (rule uniform_assemble [where W = 0]) simp
  have "dropna (map (\<lambda>s. (s, [])) smiles_list) = map (\<lambda>s. (s, [])) smiles_list"
    by (rule dropna_no_null) auto
  with frame assms(1)
  have fin: "finish (\<lambda>s. []) smiles_list smiles_list =
      Inr (map (\<lambda>s. (s, [])) smiles_list, [erroneous_report smiles_list])"
    by (simp add: finish_def)
  have e: "\<forall>s \<in> set smiles_list. ecfp_row eng radius nBits useCounts s = Inr []"
    using assms(2,3) by (simp add: ecfp_row_def parses_def none_row_def)
  have ecfp: "get_ecfp eng smiles_list radius nBits useCounts =
      Inr (map (\<lambda>s. (s, [])) smiles_list, [erroneous_report smiles_list])"
    using get_ecfp_closed [OF e] errs fin by simp
  have "get_secfp eng smiles_list radius nBits =
      Inr (map (\<lambda>s. (s, [])) smiles_list, [erroneous_report smiles_list])"
    if "returned (MHFPEncoder eng nBits)"
  proof -
    from that obtain enc where enc: "MHFPEncoder eng nBits = Inr enc"
      by (cases "MHFPEncoder eng nBits") (simp_all add: returned_def)
    have s: "\<forall>s \<in> set smiles_list. secfp_row eng enc radius nBits s = Inr []"
      using assms(2,3) by (simp add: secfp_row_def parses_def none_row_def)
    show ?thesis using get_secfp_closed [OF enc s] errs fin by simp
  qed
  with ecfp show ?thesis by (simp add: get_ecfc_eq_get_ecfp)
qed

text \<open>Witness for C5, at the failing input: \<^verbatim>\<open>"XXXX"\<close> with \<open>nBits = 0\<close> keeps its row.\<close>

theorem zero_width_placeholders_are_kept_witness:
  "[''XXXX''] \<noteq> [] \<and> \<not> parses demo_engine ''XXXX'' \<and> (0::int) \<le> 0 \<and>
   get_ecfp demo_engine [''XXXX''] 2 0 False =
     Inr ([(''XXXX'', [])], [erroneous_report [''XXXX'']]) \<and>
   get_secfp demo_engine [''XXXX''] 3 0 =
     Inr ([(''XXXX'', [])], [erroneous_report [''XXXX'']])"
  using zero_width_placeholders_are_kept [of "[''XXXX'']" demo_engine 0 2 False]
    zero_width_placeholders_are_kept [of "[''XXXX'']" demo_engine 0 3 False]
  by (simp add: demo_parses demo_encoder returned_def)

text \<open>At a width above zero, when RDKit accepts the parameters, \<^verbatim>\<open>get_ecfp\<close> does drop
  the row of a string that does not parse, and prints the report once.\<close>

lemma placeholders_dropped_at_positive_width:
  assumes "morgan_accepts eng radius nBits" and "0 < nBits"
    and "s \<in> set smiles_list" and "\<not> parses eng s"
  shows "\<exists>df. get_ecfp eng smiles_list radius nBits useCounts =
             Inr (df, [erroneous_report (filter (\<lambda>x. \<not> parses eng x) smiles_list)]) \<and>
           s \<notin> fst ` set df \<and> (\<forall>(label, row) \<in> set df. PyNone \<notin> set row)"
proof -
  let ?v = "ecfp_vector eng radius nBits useCounts"
  have "filter (\<lambda>x. \<not> parses eng x) smiles_list \<noteq> []"
    using assms(3,4) by (auto simp: filter_empty_conv)
  then have "get_ecfp eng smiles_list radius nBits useCounts =
      Inr (dropna (assemble ?v smiles_list),
           [erroneous_report (filter (\<lambda>x. \<not> parses eng x) smiles_list)])"
    by (simp add: get_ecfp_accepted [OF assms(1)] finish_def)
  moreover have "s \<notin> fst ` set (dropna (assemble ?v smiles_list))"
    by (rule placeholder_dropped [where p = "nat nBits"])
       (simp_all add: ecfp_vector_invalid assms)
  moreover have "\<forall>(label, row) \<in> set (dropna (assemble ?v smiles_list)). PyNone \<notin> set row"
    by (auto simp: dropna_row)
  ultimately show ?thesis by blast
qed

text \<open>
  Claim C6. When every input string parses, and the library calls of the loop return
  vectors of the documented lengths, each encoder returns without printing, and its
  table has one row per input, in input order: row \<open>i\<close> is labelled with input \<open>i\<close> and
  holds the vector the loop body computes for input \<open>i\<close> (\<open>v s\<close> and \<open>w s\<close> name
  the row of \<open>s\<close> in \<^verbatim>\<open>get_ecfp\<close> and \<^verbatim>\<open>get_secfp\<close>).
\<close>

theorem valid_input_keeps_order:
  assumes "\<forall>s \<in> set smiles_list. parses eng s"
  shows "(morgan_widths eng \<and>
          (\<forall>s \<in> set smiles_list. ecfp_row eng radius nBits useCounts s = Inr (v s)) \<longrightarrow>
            get_ecfp eng smiles_list radius nBits useCounts =
              Inr (map (\<lambda>s. (s, v s)) smiles_list, []) \<and>
            get_ecfc eng smiles_list radius nBits useCounts =
              Inr (map (\<lambda>s. (s, v s)) smiles_list, [])) \<and>
         (maccs_width eng \<longrightarrow>
            get_maccs eng smiles_list =
              Inr (map (\<lambda>s. (s, maccs_row eng s)) smiles_list, [])) \<and>
         (secfp_width eng \<and> MHFPEncoder eng nBits = Inr enc \<and>
          (\<forall>s \<in> set smiles_list. secfp_row eng enc radius nBits s = Inr (w s)) \<longrightarrow>
            get_secfp eng smiles_list radius nBits =
              Inr (map (\<lambda>s. (s, w s)) smiles_list, []))"
proof -
  note no_errs = all_valid_no_errs [OF assms]
  have ecfp: "get_ecfp eng smiles_list radius nBits useCounts =
      Inr (map (\<lambda>s. (s, v s)) smiles_list, [])"
    if w: "morgan_widths eng"
      and r: "\<forall>s \<in> set smiles_list. ecfp_row eng radius nBits useCounts s = Inr (v s)"
  proof -
    have "assemble v smiles_list = map (\<lambda>s. (s, v s)) smiles_list"
      by (rule uniform_assemble [where W = "nat nBits"]) (use w r in \<open>auto intro: ecfp_row_length\<close>)
    then show ?thesis
      by (simp add: get_ecfp_closed [OF r] no_errs finish_all_valid)
  qed
  have maccs: "get_maccs eng smiles_list =
      Inr (map (\<lambda>s. (s, maccs_row eng s)) smiles_list, [])" if "maccs_width eng"
  proof -
    have "assemble (maccs_row eng) smiles_list = map (\<lambda>s. (s, maccs_row eng s)) smiles_list"
      by (rule uniform_assemble [where W = 167]) (simp add: that maccs_row_length)
    then show ?thesis
      by (simp add: get_maccs_closed no_errs finish_all_valid)
  qed
  have secfp: "get_secfp eng smiles_list radius nBits =
      Inr (map (\<lambda>s. (s, w s)) smiles_list, [])"
    if w: "secfp_width eng" and e: "MHFPEncoder eng nBits = Inr enc"
      and r: "\<forall>s \<in> set smiles_list. secfp_row eng enc radius nBits s = Inr (w s)"
  proof -
    have "assemble w smiles_list = map (\<lambda>s. (s, w s)) smiles_list"
      by (rule uniform_assemble [where W = 2048])
         (use w r assms in \<open>auto intro: secfp_row_length\<close>)
    then show ?thesis
      by (simp add: get_secfp_closed [OF e r] no_errs finish_all_valid)
  qed
  from ecfp maccs secfp show ?thesis by (simp add: get_ecfc_eq_get_ecfp)
qed

lemma demo_ecfp_rows:
  "ecfp_row demo_engine 2 8 True ''CCCC'' =
     Inr [Num 0, Num 0, Num 0, Num 4, Num 0, Num 0, Num 0, Num 0]"
  "ecfp_row demo_engine 2 8 True ''CO'' =
     Inr [Num 0, Num 0, Num 0, Num 1, Num 0, Num 0, Num 0, Num 1]"
  by code_simp+

text \<open>Witness for C6: a list with a repeated string; each row holds the vector of its
  own label.\<close>

theorem valid_input_keeps_order_witness:
  "parses demo_engine ''CCCC'' \<and> parses demo_engine ''CO'' \<and> morgan_widths demo_engine \<and>
   ecfp_row demo_engine 2 8 True ''CCCC'' =
     Inr [Num 0, Num 0, Num 0, Num 4, Num 0, Num 0, Num 0, Num 0] \<and>
   ecfp_row demo_engine 2 8 True ''CO'' =
     Inr [Num 0, Num 0, Num 0, Num 1, Num 0, Num 0, Num 0, Num 1] \<and>
   get_ecfp demo_engine [''CCCC'', ''CO'', ''CCCC''] 2 8 True =
     Inr ([(''CCCC'', [Num 0, Num 0, Num 0, Num 4, Num 0, Num 0, Num 0, Num 0]),
           (''CO'', [Num 0, Num 0, Num 0, Num 1, Num 0, Num 0, Num 0, Num 1]),
           (''CCCC'', [Num 0, Num 0, Num 0, Num 4, Num 0, Num 0, Num 0, Num 0])], [])"
proof -
  have rows: "\<forall>s \<in> set [''CCCC'', ''CO'', ''CCCC''].
      ecfp_row demo_engine 2 8 True s = Inr (row_value (ecfp_row demo_engine 2 8 True s))"
    by (simp add: demo_ecfp_rows row_value_def)
  have valid: "\<forall>s \<in> set [''CCCC'', ''CO'', ''CCCC'']. parses demo_engine s"
    by (simp add: demo_parses)
  from valid_input_keeps_order [OF valid, of 2 8 True
      "\<lambda>s. row_value (ecfp_row demo_engine 2 8 True s)"] rows demo_morgan_widths
  have "get_ecfp demo_engine [''CCCC'', ''CO'', ''CCCC''] 2 8 True =
      Inr (map (\<lambda>s. (s, row_value (ecfp_row demo_engine 2 8 True s))) [''CCCC'', ''CO'', ''CCCC''], [])"
    by blast
  then show ?thesis
    by (simp add: demo_ecfp_rows demo_parses demo_morgan_widths row_value_def)
qed

text \<open>
  Claim C8. When every input string parses (and the library accepts the parameters, so
  that the loop ends), the loop ends with an empty list of erroneous strings, and each
  encoder returns the frame built from the loop's rows as it is, without printing: no
  \<^verbatim>\<open>dropna\<close> is applied. The drop is gated on the erroneous list, not on nulls in the
  frame; no assumption on the lengths of the vectors is made, so this holds also where
  the assembled frame holds nulls.
\<close>

theorem valid_input_returned_as_assembled:
  assumes "\<forall>s \<in> set smiles_list. parses eng s"
  shows "(morgan_accepts eng radius nBits \<longrightarrow>
            returned_as_assembled (ecfp_loop eng radius nBits useCounts smiles_list [] [])
              smiles_list (get_ecfp eng smiles_list radius nBits useCounts) \<and>
            returned_as_assembled (ecfc_loop eng radius nBits useCounts smiles_list [] [])
              smiles_list (get_ecfc eng smiles_list radius nBits useCounts)) \<and>
         returned_as_assembled (Inr (maccs_loop eng smiles_list [] []))
           smiles_list (get_maccs eng smiles_list) \<and>
         (secfp_accepts eng radius \<and> MHFPEncoder eng nBits = Inr enc \<longrightarrow>
            returned_as_assembled (secfp_loop eng enc radius nBits smiles_list [] [])
              smiles_list (get_secfp eng smiles_list radius nBits))"
proof -
  note no_errs = all_valid_no_errs [OF assms]
  have "returned_as_assembled (ecfp_loop eng radius nBits useCounts smiles_list [] [])
          smiles_list (get_ecfp eng smiles_list radius nBits useCounts)"
    if "morgan_accepts eng radius nBits"
    using that no_errs
    by (simp add: returned_as_assembled_def get_ecfp_accepted finish_all_valid ecfp_loop_closed
        collect_Inr [where v = "ecfp_vector eng radius nBits useCounts"] ecfp_row_returned
        DataFrame_map)
  moreover have "returned_as_assembled (Inr (maccs_loop eng smiles_list [] []))
          smiles_list (get_maccs eng smiles_list)"
    using no_errs
    by (simp add: returned_as_assembled_def get_maccs_closed finish_all_valid maccs_loop_closed
        DataFrame_map)
  moreover have "returned_as_assembled (secfp_loop eng enc radius nBits smiles_list [] [])
          smiles_list (get_secfp eng smiles_list radius nBits)"
    if "secfp_accepts eng radius" and "MHFPEncoder eng nBits = Inr enc"
    using that no_errs
    by (simp add: returned_as_assembled_def get_secfp_accepted finish_all_valid secfp_loop_closed
        collect_Inr [where v = "secfp_vector eng enc radius nBits"] secfp_row_returned
        DataFrame_map)
  ultimately show ?thesis by (simp add: get_ecfc_eq_get_ecfp get_ecfc_def get_ecfp_def
      ecfc_loop_closed ecfp_loop_closed returned_as_assembled_def)
qed

lemma ragged_maccs_table:
  "get_maccs ragged_engine [''C'', ''CO''] =
     Inr ([(''C'', [Num 1, PyNone]), (''CO'', [Num 1, Num 1])], [])"
  by code_simp

text \<open>Witness for C8: with an engine whose key vectors differ in length the assembled
  frame holds a null (the short row is filled up), and it is returned with the null.\<close>

theorem valid_input_returned_as_assembled_witness:
  "parses ragged_engine ''C'' \<and> parses ragged_engine ''CO'' \<and>
   returned_as_assembled (Inr (maccs_loop ragged_engine [''C'', ''CO''] [] []))
     [''C'', ''CO''] (get_maccs ragged_engine [''C'', ''CO'']) \<and>
   get_maccs ragged_engine [''C'', ''CO''] =
     Inr ([(''C'', [Num 1, PyNone]), (''CO'', [Num 1, Num 1])], [])"
  using valid_input_returned_as_assembled [of "[''C'', ''CO'']" ragged_engine]
  by (simp add: ragged_parses demo_parses ragged_maccs_table)

text \<open>
  Claim C9, amended. For the empty input list \<^verbatim>\<open>get_ecfp\<close>, \<^verbatim>\<open>get_ecfc\<close> and
  \<^verbatim>\<open>get_maccs\<close> return an empty table, print nothing and raise no error, whatever the
  parameters. \<^verbatim>\<open>get_secfp\<close> builds its encoder before the loop: it does the same when
  \<^verbatim>\<open>MHFPEncoder(n_permutations=nBits)\<close> returns, and raises the constructor's exception
  otherwise.
\<close>

theorem empty_input_gives_empty_table:
  "get_ecfp eng [] radius nBits useCounts = Inr ([], []) \<and>
   get_ecfc eng [] radius nBits useCounts = Inr ([], []) \<and>
   get_maccs eng [] = Inr ([], []) \<and>
   get_secfp eng [] radius nBits =
     (case MHFPEncoder eng nBits of Inl e \<Rightarrow> Inl e | Inr mhfp_encoder \<Rightarrow> Inr ([], []))"
  by (simp add: get_ecfp_def get_ecfc_def get_maccs_def get_secfp_def DataFrame_def
      split: sum.splits)

text \<open>
  Counterexample to C9 as stated: with \<open>nBits = -1\<close> the constructor refuses the number
  of permutations, and \<^verbatim>\<open>get_secfp\<close> raises on the empty list.
\<close>

theorem secfp_empty_input_raises:
  "get_secfp demo_engine [] 3 (- 1) = Inl ValueError"
  by (simp add: get_secfp_def demo_engine_def)

text \<open>
  Claim C10 says that the table has one row for every input that parsed. In
  \<^verbatim>\<open>get_secfp\<close> the placeholder has \<open>nBits\<close> entries and a valid row 2048 (the literal
  of the library call). What the code does for \<open>nBits > 2048\<close> and a list with a string
  that does not parse: the frame is as wide as the placeholder, every valid row is
  filled up with nulls, and \<^verbatim>\<open>dropna\<close> removes it with the placeholders: the returned
  table has no row at all.
\<close>

theorem secfp_wide_width_loses_every_row:
  assumes "secfp_width eng" and "mhfp_accepts eng radius nBits" and "2048 < nBits"
    and "s \<in> set smiles_list" and "\<not> parses eng s"
  shows "get_secfp eng smiles_list radius nBits =
           Inr ([], [erroneous_report (filter (\<lambda>x. \<not> parses eng x) smiles_list)])"
proof -
  from assms(2) obtain enc where enc: "MHFPEncoder eng nBits = Inr enc"
    using mhfp_accepts_encoder by blast
  from assms(2) have acc: "secfp_accepts eng radius" by (simp add: mhfp_accepts_def)
  let ?v = "secfp_vector eng enc radius nBits"
  let ?w = "width (map ?v smiles_list)"
  have "length (?v s) \<le> ?w"
    by (rule length_le_width) (simp add: assms(4))
  then have wide: "nat nBits \<le> ?w"
    by (simp add: secfp_vector_invalid [OF assms(5)])
  have null: "PyNone \<in> set row" if "(label, row) \<in> set (assemble ?v smiles_list)" for label row
  proof -
    from that have row: "row = pad ?w (?v label)" by (auto dest: assemble_row)
    show ?thesis
    proof (cases "parses eng label")
      case True
      then have "length (?v label) = 2048"
        by (simp add: secfp_vector_length assms(1) acc)
      with wide assms(3) have "length (?v label) < ?w" by simp
      then show ?thesis unfolding row by (rule pad_short)
    next
      case False
      then have "?v label = replicate (nat nBits) PyNone" by (rule secfp_vector_invalid)
      with assms(3) show ?thesis unfolding row by (simp add: pad_none_row)
    qed
  qed
  have "dropna (assemble ?v smiles_list) = []"
    by (rule dropna_all_null) (rule null)
  moreover have "filter (\<lambda>x. \<not> parses eng x) smiles_list \<noteq> []"
    using assms(4,5) by (auto simp: filter_empty_conv)
  ultimately show ?thesis
    by (simp add: get_secfp_accepted [OF enc acc] finish_def)
qed

text \<open>Witness for C10, at the failing input: one string parses, and the table is empty.\<close>

theorem secfp_wide_width_loses_every_row_witness:
  "secfp_width demo_engine \<and> mhfp_accepts demo_engine 3 4096 \<and> (2048::int) < 4096 \<and>
   parses demo_engine ''CO'' \<and> \<not> parses demo_engine ''XXXX'' \<and>
   get_secfp demo_engine [''CO'', ''XXXX''] 3 4096 = Inr ([], [erroneous_report [''XXXX'']])"
proof -
  have acc: "mhfp_accepts demo_engine 3 4096" by (simp add: demo_mhfp_accepts)
  from secfp_wide_width_loses_every_row
    [OF demo_secfp_width acc, of "''XXXX''" "[''CO'', ''XXXX'']"]
  show ?thesis by (simp add: demo_secfp_width acc demo_parses)
qed

text \<open>In \<^verbatim>\<open>get_ecfp\<close>, where the placeholder and the vectors have the same length, the
  rows at a width above zero are the inputs that parsed, in order, repetitions kept.\<close>

lemma ecfp_rows_are_the_parsed_inputs:
  assumes "morgan_widths eng" and "morgan_accepts eng radius nBits" and "0 < nBits"
  shows "\<exists>df out. get_ecfp eng smiles_list radius nBits useCounts = Inr (df, out) \<and>
           map fst df = filter (parses eng) smiles_list"
proof (cases "filter (\<lambda>s. \<not> parses eng s) smiles_list = []")
  case True
  then have "filter (parses eng) smiles_list = smiles_list"
    by (auto simp: filter_empty_conv filter_id_conv)
  with True show ?thesis
    by (simp add: get_ecfp_accepted [OF assms(2)] finish_def assemble_labels)
next
  case False
  have "dropna (assemble (ecfp_vector eng radius nBits useCounts) smiles_list) =
      map (\<lambda>s. (s, ecfp_vector eng radius nBits useCounts s)) (filter (parses eng) smiles_list)"
    by (rule dropna_assemble [where p = "nat nBits" and W = "nat nBits"])
       (simp_all add: assms ecfp_vector_invalid ecfp_vector_clean ecfp_vector_length)
  with False show ?thesis
    by (simp add: get_ecfp_accepted [OF assms(2)] finish_def o_def)
qed

text \<open>
  Claim C7 (two calls on the same input give the same vectors) has no theorem here.
  The library calls are functions of this model, so their determinism, the seeded
  permutations of the MinHash encoder included, is part of the model and not a
  property it could fail; and a number is a value here, whatever its storage.
\<close>

end
